theory Spec2Isabelle
  imports Complex_Main
begin

section \<open>Game settings\<close>

text \<open>
  The module-level constants of \<^verbatim>\<open>FlappyMax.py\<close>. The module-level \<^verbatim>\<open>gap_size\<close> is called
  \<open>game_gap_size\<close> here, because \<open>gap_size\<close> is also a field of every obstacle.
\<close>

definition screen_width :: int where
  "screen_width = 1000"

definition screen_height :: int where
  "screen_height = screen_width"

definition hspeed :: int where
  "hspeed = 3"

definition obstacle_interval :: nat where
  "obstacle_interval = 1800"

definition game_gap_size :: int where
  "game_gap_size = 400"

section \<open>Rectangles of the graphics library\<close>

text \<open>
  A \<^verbatim>\<open>pygame.Rect\<close> holds four integers. Its edges are derived attributes, and assigning
  to an edge moves the rectangle without resizing it.

  Assigning a Python float to a coordinate stores an integer. Which integer is decided
  inside the graphics library and not in \<^verbatim>\<open>FlappyMax.py\<close>, and releases of the library
  differ: some drop the fractional part (round toward zero), others round to the nearest
  integer. The program names no release. So the conversion is a parameter \<open>c\<close> of the
  update of the bird and of everything that calls it, and \<open>float_truncated\<close> and
  \<open>float_rounded\<close> are the two conversions. No statement below about \<open>float_rounded\<close>
  evaluates it at a value halfway between two integers.

  Python floats are modelled as exact rationals: the rounding error of binary floating
  point is not part of this model.
\<close>

record Rect =
  rect_x :: int
  rect_y :: int
  rect_w :: int
  rect_h :: int

definition rect_left :: "Rect \<Rightarrow> int" where
  "rect_left r = rect_x r"

definition rect_right :: "Rect \<Rightarrow> int" where
  "rect_right r = rect_x r + rect_w r"

definition rect_top :: "Rect \<Rightarrow> int" where
  "rect_top r = rect_y r"

definition rect_bottom :: "Rect \<Rightarrow> int" where
  "rect_bottom r = rect_y r + rect_h r"

definition rect_centerx :: "Rect \<Rightarrow> int" where
  "rect_centerx r = rect_x r + rect_w r div 2"

definition rect_centery :: "Rect \<Rightarrow> int" where
  "rect_centery r = rect_y r + rect_h r div 2"

definition set_top :: "Rect \<Rightarrow> int \<Rightarrow> Rect" where
  "set_top r v = r\<lparr>rect_y := v\<rparr>"

definition set_bottom :: "Rect \<Rightarrow> int \<Rightarrow> Rect" where
  "set_bottom r v = r\<lparr>rect_y := v - rect_h r\<rparr>"

definition float_truncated :: "rat \<Rightarrow> int" where
  "float_truncated q = (if 0 \<le> q then \<lfloor>q\<rfloor> else \<lceil>q\<rceil>)"

definition float_rounded :: "rat \<Rightarrow> int" where
  "float_rounded q = (if 0 \<le> q then \<lfloor>q + 1 / 2\<rfloor> else \<lceil>q - 1 / 2\<rceil>)"

definition get_rect_center :: "int \<times> int \<Rightarrow> int \<times> int \<Rightarrow> Rect" where
  "get_rect_center sz c =
     \<lparr>rect_x = fst c - fst sz div 2, rect_y = snd c - snd sz div 2,
      rect_w = fst sz, rect_h = snd sz\<rparr>"

definition get_rect_topleft :: "int \<times> int \<Rightarrow> int \<times> int \<Rightarrow> Rect" where
  "get_rect_topleft sz p =
     \<lparr>rect_x = fst p, rect_y = snd p, rect_w = fst sz, rect_h = snd sz\<rparr>"

text \<open>
  \<^verbatim>\<open>Rect.colliderect\<close>: two rectangles collide when their interiors overlap; a rectangle
  of zero width or height collides with nothing.
\<close>

definition colliderect :: "Rect \<Rightarrow> Rect \<Rightarrow> bool" where
  "colliderect a b =
     (if rect_w a = 0 \<or> rect_h a = 0 \<or> rect_w b = 0 \<or> rect_h b = 0 then False
      else min (rect_x a) (rect_x a + rect_w a) < max (rect_x b) (rect_x b + rect_w b)
         \<and> min (rect_y a) (rect_y a + rect_h a) < max (rect_y b) (rect_y b + rect_h b)
         \<and> max (rect_x a) (rect_x a + rect_w a) > min (rect_x b) (rect_x b + rect_w b)
         \<and> max (rect_y a) (rect_y a + rect_h a) > min (rect_y b) (rect_y b + rect_h b))"

section \<open>The bird\<close>

text \<open>
  \<^verbatim>\<open>class Bird\<close>. The image is a constant white 100 x 100 surface and the font only
  serves the debug text, so the state of a bird is its rectangle and its velocity.
  The constructor takes \<open>x\<close> and \<open>y\<close> and does not use them. The update takes the
  conversion \<open>c\<close> of the library for the assignment to \<^verbatim>\<open>self.rect.y\<close>.
\<close>

record Bird =
  rect :: Rect
  velocity :: rat

definition Bird_init :: "int \<Rightarrow> int \<Rightarrow> Bird" where
  "Bird_init x y =
     \<lparr>rect = get_rect_center (100, 100) (screen_width div 2, screen_height div 2),
      velocity = - 5\<rparr>"

definition move_upwards :: "Bird \<Rightarrow> Bird" where
  "move_upwards b = b\<lparr>velocity := - 5\<rparr>"

definition Bird_update :: "(rat \<Rightarrow> int) \<Rightarrow> Bird \<Rightarrow> Bird" where
  "Bird_update c b =
     (let v1 = velocity b + 2 / 10;
          r1 = (rect b)\<lparr>rect_y := c (of_int (rect_y (rect b)) + v1)\<rparr>
      in if rect_top r1 \<le> - 100 then \<lparr>rect = set_top r1 (- 100), velocity = v1\<rparr>
         else if rect_bottom r1 \<ge> screen_height
              then \<lparr>rect = set_bottom r1 screen_height, velocity = - v1 * (75 / 100)\<rparr>
              else \<lparr>rect = r1, velocity = v1\<rparr>)"

section \<open>Obstacles\<close>

text \<open>
  \<^verbatim>\<open>class Obstacle\<close>. The constructor draws the top height with
  \<^verbatim>\<open>random.randint(*height_range)\<close>; the model takes the drawn value as the argument
  \<open>drawn\<close>, in place of the range. With the default range the draw lies in
  \<open>{100..500}\<close>. The field \<open>alive\<close> stands for the membership in the sprite group:
  \<^verbatim>\<open>kill()\<close> clears it.
\<close>

record Obstacle =
  gap_size :: int
  top_height :: int
  bottom_height :: int
  scored :: bool
  top_rect :: Rect
  bottom_rect :: Rect
  alive :: bool

definition height_range :: "int \<times> int" where
  "height_range = (100, 500)"

definition in_height_range :: "int \<Rightarrow> bool" where
  "in_height_range drawn = (fst height_range \<le> drawn \<and> drawn \<le> snd height_range)"

definition Obstacle_init :: "int \<Rightarrow> int \<Rightarrow> int \<Rightarrow> int \<Rightarrow> Obstacle" where
  "Obstacle_init x gap drawn width =
     (let th = drawn;
          bh = screen_height - th - gap
      in \<lparr>gap_size = gap, top_height = th, bottom_height = bh, scored = False,
          top_rect = get_rect_topleft (width, th) (x, 0),
          bottom_rect = get_rect_topleft (width, bh) (x, screen_height - bh),
          alive = True\<rparr>)"

definition Obstacle_update :: "Obstacle \<Rightarrow> Obstacle" where
  "Obstacle_update ob =
     (let ob1 = ob\<lparr>top_rect := (top_rect ob)\<lparr>rect_x := rect_x (top_rect ob) - hspeed\<rparr>\<rparr>;
          ob2 = ob1\<lparr>bottom_rect := (bottom_rect ob1)\<lparr>rect_x := rect_x (bottom_rect ob1) - hspeed\<rparr>\<rparr>
      in if rect_right (top_rect ob2) < 0 then ob2\<lparr>alive := False\<rparr> else ob2)"

section \<open>The game loop\<close>

text \<open>
  The input of one loop iteration is the list of events that \<^verbatim>\<open>pygame.event.get()\<close>
  returns. An event of the obstacle timer carries the value that the constructor of the
  new obstacle will draw. What the iteration does to the display, the timer and the clock
  is its list of effects.
\<close>

datatype key = K_SPACE | K_other

datatype event = QUIT | KEYDOWN key | OBSTACLE_TIMER int | OTHER_EVENT

datatype effect =
    ClockTick nat
  | GameOverText
  | DisplayFlip
  | TimeWait nat
  | SetTimer nat
  | ScreenFill
  | DrawObstacle Obstacle
  | DrawBird Bird
  | DrawScore int

record game =
  bird :: Bird
  obstacles :: "Obstacle list"
  score :: int
  running :: bool

text \<open>The state that \<^verbatim>\<open>main\<close> builds before the loop, and its effect on the timer.\<close>

definition initial_game :: game where
  "initial_game =
     \<lparr>bird = Bird_init (screen_width div 2) (screen_height div 2), obstacles = [],
      score = 0, running = True\<rparr>"

definition initial_effects :: "effect list" where
  "initial_effects = [SetTimer obstacle_interval]"

text \<open>Lines 117 to 124: one event of the queue.\<close>

fun process_event :: "game \<Rightarrow> event \<Rightarrow> game" where
  "process_event s QUIT = s\<lparr>running := False\<rparr>"
| "process_event s (KEYDOWN k) =
     (if k = K_SPACE then s\<lparr>bird := move_upwards (bird s)\<rparr> else s)"
| "process_event s (OBSTACLE_TIMER drawn) =
     s\<lparr>obstacles := obstacles s @ [Obstacle_init screen_width game_gap_size drawn 100]\<rparr>"
| "process_event s OTHER_EVENT = s"

definition process_events :: "event list \<Rightarrow> game \<Rightarrow> game" where
  "process_events evs s = foldl process_event s evs"

text \<open>Lines 128 to 131: the obstacle advances, then the scoring test.\<close>

definition score_obstacle :: "Bird \<Rightarrow> Obstacle \<Rightarrow> int \<Rightarrow> Obstacle \<times> int" where
  "score_obstacle b ob sc =
     (let ob1 = Obstacle_update ob
      in if rect_right (top_rect ob1) < rect_left (rect b) \<and> \<not> scored ob1
         then (ob1\<lparr>scored := True\<rparr>, sc + 1)
         else (ob1, sc))"

text \<open>Line 133: the collision test.\<close>

definition bird_collides :: "Bird \<Rightarrow> Obstacle \<Rightarrow> bool" where
  "bird_collides b ob =
     (colliderect (rect b) (top_rect ob) \<or> colliderect (rect b) (bottom_rect ob))"

text \<open>Line 137: the test for leaving the screen.\<close>

definition off_screen :: "Obstacle \<Rightarrow> bool" where
  "off_screen ob = (rect_right (top_rect ob) < 0 \<or> rect_right (bottom_rect ob) < 0)"

text \<open>
  Lines 126 to 138: the loop over a snapshot of the group, in the order of insertion.
  It returns every obstacle of the snapshot, those it did not reach unchanged, with the
  score and the collision flag. The \<^verbatim>\<open>break\<close> leaves the rest of the snapshot as it was.
\<close>

fun obstacles_loop :: "Bird \<Rightarrow> Obstacle list \<Rightarrow> int \<Rightarrow> Obstacle list \<times> int \<times> bool" where
  "obstacles_loop b [] sc = ([], sc, False)"
| "obstacles_loop b (ob # obs) sc =
     (case score_obstacle b ob sc of (ob1, sc1) \<Rightarrow>
        if bird_collides b ob1 then (ob1 # obs, sc1, True)
        else (case obstacles_loop b obs sc1 of (obs', sc', collision) \<Rightarrow>
                ((if off_screen ob1 then ob1\<lparr>alive := False\<rparr> else ob1) # obs', sc', collision)))"

definition game_over_screen :: "effect list" where
  "game_over_screen = [GameOverText, DisplayFlip, TimeWait 2000]"

text \<open>Lines 140 to 151: what the loop does after a collision.\<close>

definition reset_game :: "game \<Rightarrow> game \<times> effect list" where
  "reset_game s =
     (s\<lparr>bird := Bird_init (screen_width div 2) (screen_height div 2),
        obstacles := [], score := 0\<rparr>,
      game_over_screen @ [SetTimer 0, SetTimer obstacle_interval])"

text \<open>Lines 153 to 166: the frame; the bird advances between the obstacles and its own drawing.\<close>

definition render :: "(rat \<Rightarrow> int) \<Rightarrow> game \<Rightarrow> game \<times> effect list" where
  "render c s =
     (let b = Bird_update c (bird s)
      in (s\<lparr>bird := b\<rparr>,
          [ScreenFill] @ map DrawObstacle (obstacles s)
            @ [DrawBird b, DrawScore (score s), DisplayFlip]))"

text \<open>Lines 116 to 166: one iteration of the loop.\<close>

definition tick :: "(rat \<Rightarrow> int) \<Rightarrow> event list \<Rightarrow> game \<Rightarrow> game \<times> effect list" where
  "tick c evs s =
     (let s1 = process_events evs s
      in case obstacles_loop (bird s1) (obstacles s1) (score s1) of (obs, sc, collision) \<Rightarrow>
           let s2 = s1\<lparr>obstacles := filter alive obs, score := sc\<rparr>
           in case (if collision then reset_game s2 else (s2, [])) of (s3, fx) \<Rightarrow>
                case render c s3 of (s4, frame) \<Rightarrow> (s4, [ClockTick 60] @ fx @ frame))"

text \<open>
  Line 115: the loop runs while \<open>running\<close> holds. A run consumes one list of events per
  iteration.
\<close>

fun run :: "(rat \<Rightarrow> int) \<Rightarrow> event list list \<Rightarrow> game \<Rightarrow> game" where
  "run c [] s = s"
| "run c (evs # rest) s = (if running s then run c rest (fst (tick c evs s)) else s)"

section \<open>Predicates and closed forms used in the statements\<close>

text \<open>The vertical bounds of the bird: its top edge and its bottom edge.\<close>

definition on_screen :: "Bird \<Rightarrow> bool" where
  "on_screen b = (- 100 \<le> rect_top (rect b) \<and> rect_bottom (rect b) \<le> screen_height)"

text \<open>The two rectangles of an obstacle have the same horizontal extent.\<close>

definition synced :: "Obstacle \<Rightarrow> bool" where
  "synced ob =
     (rect_x (top_rect ob) = rect_x (bottom_rect ob)
      \<and> rect_w (top_rect ob) = rect_w (bottom_rect ob))"

text \<open>The heights of an obstacle fill the screen, and its rectangles have these heights.\<close>

definition heights_ok :: "Obstacle \<Rightarrow> bool" where
  "heights_ok ob =
     (top_height ob + gap_size ob + bottom_height ob = screen_height
      \<and> rect_h (top_rect ob) = top_height ob \<and> rect_h (bottom_rect ob) = bottom_height ob
      \<and> rect_top (top_rect ob) = 0 \<and> rect_bottom (bottom_rect ob) = screen_height)"

text \<open>
  The sum of the integer steps of a free flight that starts with velocity \<open>- 5\<close>: at
  tick \<open>k\<close> the velocity is \<open>- 5 + k / 5\<close>. A non-negative coordinate moves by the floor
  of it when the library truncates, and any coordinate moves by the floor of it plus one
  half when the library rounds (the velocity is a multiple of one fifth, never halfway).
\<close>

fun drift_truncated :: "nat \<Rightarrow> int" where
  "drift_truncated 0 = 0"
| "drift_truncated (Suc n) = drift_truncated n + \<lfloor>- 5 + of_nat (Suc n) / (5::rat)\<rfloor>"

fun drift_rounded :: "nat \<Rightarrow> int" where
  "drift_rounded 0 = 0"
| "drift_rounded (Suc n) = drift_rounded n + \<lfloor>- 5 + of_nat (Suc n) / (5::rat) + 1 / 2\<rfloor>"

text \<open>
  The scoring test of lines 129 to 131 read on the positions alone: the right edge of the
  top rectangle is not yet strictly left of the left edge of the bird, and it is after
  this update of the obstacle.
\<close>

definition passes_now :: "Bird \<Rightarrow> Obstacle \<Rightarrow> bool" where
  "passes_now b ob =
     (rect_left (rect b) \<le> rect_right (top_rect ob)
      \<and> rect_right (top_rect (Obstacle_update ob)) < rect_left (rect b))"

text \<open>
  What one pass of the loop body (lines 128 to 138, without a collision) makes of an
  obstacle, and the invariant of the game: the bird keeps its left edge at 450, and every
  obstacle of the group is in the group, has its rectangles aligned and its heights
  filling the screen, and has scored exactly when its right edge is strictly left of the
  left edge of the bird.
\<close>

definition loop_body :: "Bird \<Rightarrow> Obstacle \<Rightarrow> Obstacle" where
  "loop_body b ob =
     (let ob1 = fst (score_obstacle b ob 0)
      in if off_screen ob1 then ob1\<lparr>alive := False\<rparr> else ob1)"

definition obstacle_ok :: "Bird \<Rightarrow> Obstacle \<Rightarrow> bool" where
  "obstacle_ok b ob =
     (synced ob \<and> heights_ok ob \<and> alive ob \<and> 0 \<le> rect_right (top_rect ob)
      \<and> scored ob = (rect_right (top_rect ob) < rect_left (rect b)))"

definition game_ok :: "game \<Rightarrow> bool" where
  "game_ok s =
     (rect_left (rect (bird s)) = 450 \<and> list_all (obstacle_ok (bird s)) (obstacles s))"

text \<open>
  The state of a game with one obstacle: the bird at height \<open>y\<close> with velocity \<open>v\<close>, the
  obstacle at \<open>x\<close> with top height \<open>th\<close>, the score \<open>sc\<close> and the flag \<open>f\<close> of the
  obstacle.
\<close>

definition one_obstacle :: "int \<Rightarrow> rat \<Rightarrow> int \<Rightarrow> int \<Rightarrow> int \<Rightarrow> bool \<Rightarrow> game" where
  "one_obstacle y v x th sc f =
     \<lparr>bird = \<lparr>rect = \<lparr>rect_x = 450, rect_y = y, rect_w = 100, rect_h = 100\<rparr>, velocity = v\<rparr>,
      obstacles = [\<lparr>gap_size = 400, top_height = th, bottom_height = 600 - th, scored = f,
                    top_rect = \<lparr>rect_x = x, rect_y = 0, rect_w = 100, rect_h = th\<rparr>,
                    bottom_rect = \<lparr>rect_x = x, rect_y = th + 400, rect_w = 100,
                                   rect_h = 600 - th\<rparr>,
                    alive = True\<rparr>],
      score = sc, running = True\<rparr>"

text \<open>
  A run with no key pressed: the timer fires in the first tick and the constructor draws
  300. Where the library truncates, \<open>late_collision_state\<close> is the state after 174 ticks
  and \<open>overlap_state\<close> the state one tick later. Where it rounds, \<open>collision_state_rounded\<close>
  is the state after 150 ticks.
\<close>

definition late_collision_events :: "event list list" where
  "late_collision_events = [OBSTACLE_TIMER 300] # replicate 173 []"

definition late_collision_state :: game where
  "late_collision_state = one_obstacle 600 (39 / 10) 478 300 0 False"

definition overlap_state :: game where
  "overlap_state = one_obstacle 604 (41 / 10) 475 300 0 False"

definition collision_events_rounded :: "event list list" where
  "collision_events_rounded = [OBSTACLE_TIMER 300] # replicate 149 []"

definition collision_state_rounded :: game where
  "collision_state_rounded = one_obstacle 625 (3 / 20) 550 300 0 False"

text \<open>
  Two runs of 215 ticks with five presses of the space key, 20 ticks apart, one for each
  conversion. Each reaches a state \<open>before_overlap\<close>; one more tick without events gives
  \<open>unseen_overlap\<close>, and one more \<open>after_overlap\<close>.
\<close>

definition unseen_overlap_events_rounded :: "event list list" where
  "unseen_overlap_events_rounded =
     [OBSTACLE_TIMER 194] # replicate 55 []
     @ concat (replicate 5 ([KEYDOWN K_SPACE] # replicate 19 []))
     @ replicate 59 []"

definition before_overlap_rounded :: game where
  "before_overlap_rounded = one_obstacle 494 (54 / 5) 355 194 0 False"

definition unseen_overlap_rounded :: game where
  "unseen_overlap_rounded = one_obstacle 505 11 352 194 0 False"

definition after_overlap_rounded :: game where
  "after_overlap_rounded = one_obstacle 516 (56 / 5) 349 194 1 True"

definition unseen_overlap_events_truncated :: "event list list" where
  "unseen_overlap_events_truncated =
     [OBSTACLE_TIMER 118] # replicate 53 []
     @ concat (replicate 5 ([KEYDOWN K_SPACE] # replicate 19 []))
     @ replicate 61 []"

definition before_overlap_truncated :: game where
  "before_overlap_truncated = one_obstacle 418 (56 / 5) 355 118 0 False"

definition unseen_overlap_truncated :: game where
  "unseen_overlap_truncated = one_obstacle 429 (57 / 5) 352 118 0 False"

definition after_overlap_truncated :: game where
  "after_overlap_truncated = one_obstacle 440 (58 / 5) 349 118 1 True"

section \<open>Evaluation of floors and ceilings of numerals\<close>

lemma floor_rat_numeral [simp]:
  "\<lfloor>numeral a / numeral b :: rat\<rfloor> = numeral a div numeral b"
  using floor_divide_of_int_eq [of "numeral a" "numeral b", where ?'a = rat] by simp

lemma floor_rat_neg_numeral [simp]:
  "\<lfloor>- (numeral a / numeral b) :: rat\<rfloor> = - numeral a div numeral b"
  using floor_divide_of_int_eq [of "- numeral a" "numeral b", where ?'a = rat] by simp

lemma floor_rat_one_div [simp]:
  "\<lfloor>1 / numeral b :: rat\<rfloor> = 1 div numeral b"
  using floor_divide_of_int_eq [of 1 "numeral b", where ?'a = rat] by simp

lemma floor_rat_neg_one_div [simp]:
  "\<lfloor>- (1 / numeral b) :: rat\<rfloor> = - 1 div numeral b"
  using floor_divide_of_int_eq [of "- 1" "numeral b", where ?'a = rat] by simp

lemma floor_rat_neg_one [simp]:
  "\<lfloor>- 1 :: rat\<rfloor> = - 1"
  using floor_of_int [of "- 1", where ?'a = rat] by simp

lemma ceiling_rat_numeral [simp]:
  "\<lceil>numeral a / numeral b :: rat\<rceil> = - (- numeral a div numeral b)"
  unfolding ceiling_def by simp

lemma ceiling_rat_neg_numeral [simp]:
  "\<lceil>- (numeral a / numeral b) :: rat\<rceil> = - (numeral a div numeral b)"
  unfolding ceiling_def by simp

lemma ceiling_rat_one_div [simp]:
  "\<lceil>1 / numeral b :: rat\<rceil> = - (- 1 div numeral b)"
  unfolding ceiling_def by simp

lemma ceiling_rat_neg_one_div [simp]:
  "\<lceil>- (1 / numeral b) :: rat\<rceil> = - (1 div numeral b)"
  unfolding ceiling_def by simp

lemma ceiling_rat_neg_one [simp]:
  "\<lceil>- 1 :: rat\<rceil> = - 1"
  unfolding ceiling_def by simp

lemma funpow_numeral_step: "(f ^^ numeral k) x = (f ^^ pred_numeral k) (f x)"
  by (simp add: numeral_eq_Suc funpow_swap1)

lemma All_less_numeral:
  "(\<forall>i<numeral k. P i) = (P (pred_numeral k) \<and> (\<forall>i<pred_numeral k. P i))"
  by (simp add: numeral_eq_Suc All_less_Suc)

section \<open>The constructor of the bird\<close>

text \<open>
  C10. The constructor of the bird ignores its arguments \<open>x\<close> and \<open>y\<close>: any two calls
  build the same bird, centred at \<open>(screen_width div 2, screen_height div 2)\<close> with
  velocity \<open>- 5\<close>. So the bird of the start of the run and the bird of a reset are the
  same.
\<close>

theorem Bird_init_ignores_arguments:
  "Bird_init x y = Bird_init x' y'
   \<and> rect_centerx (rect (Bird_init x y)) = screen_width div 2
   \<and> rect_centery (rect (Bird_init x y)) = screen_height div 2
   \<and> velocity (Bird_init x y) = - 5
   \<and> bird initial_game = Bird_init x y
   \<and> bird (fst (reset_game s)) = Bird_init x y"
  by (simp add: Bird_init_def initial_game_def reset_game_def rect_centerx_def rect_centery_def
      get_rect_center_def screen_width_def screen_height_def)

section \<open>Obstacles: geometry\<close>

lemma synced_init: "synced (Obstacle_init x gap drawn width)"
  by (simp add: synced_def Obstacle_init_def Let_def get_rect_topleft_def)

lemma synced_update: "synced ob \<Longrightarrow> synced (Obstacle_update ob)"
  by (simp add: synced_def Obstacle_update_def Let_def)

lemma synced_funpow: "synced ob \<Longrightarrow> synced ((Obstacle_update ^^ n) ob)"
  by (induction n) (simp_all add: synced_update)

text \<open>
  C9. The top and the bottom rectangle of an obstacle have the same x coordinate when
  the obstacle is built and after any number of updates, and so the same right edge: a
  test of the right edge of the top rectangle is a test of the right edge of either.
\<close>

theorem obstacle_rects_share_x:
  "rect_x (top_rect ((Obstacle_update ^^ n) (Obstacle_init x gap drawn width)))
     = rect_x (bottom_rect ((Obstacle_update ^^ n) (Obstacle_init x gap drawn width)))
   \<and> rect_right (top_rect ((Obstacle_update ^^ n) (Obstacle_init x gap drawn width)))
     = rect_right (bottom_rect ((Obstacle_update ^^ n) (Obstacle_init x gap drawn width)))
   \<and> off_screen ((Obstacle_update ^^ n) (Obstacle_init x gap drawn width))
     = (rect_right (top_rect ((Obstacle_update ^^ n) (Obstacle_init x gap drawn width))) < 0)"
  using synced_funpow [OF synced_init, of n x gap drawn width]
  by (simp add: synced_def rect_right_def off_screen_def)

lemma heights_ok_init: "heights_ok (Obstacle_init x gap drawn width)"
  by (simp add: heights_ok_def Obstacle_init_def Let_def get_rect_topleft_def rect_top_def
      rect_bottom_def)

lemma heights_ok_update: "heights_ok ob \<Longrightarrow> heights_ok (Obstacle_update ob)"
  by (simp add: heights_ok_def Obstacle_update_def Let_def rect_top_def rect_bottom_def)

lemma heights_ok_funpow: "heights_ok ob \<Longrightarrow> heights_ok ((Obstacle_update ^^ n) ob)"
  by (induction n) (simp_all add: heights_ok_update)

lemma update_keeps_heights:
  "top_height (Obstacle_update ob) = top_height ob
   \<and> bottom_height (Obstacle_update ob) = bottom_height ob
   \<and> gap_size (Obstacle_update ob) = gap_size ob"
  by (simp add: Obstacle_update_def Let_def)

lemma funpow_keeps_heights:
  "top_height ((Obstacle_update ^^ n) ob) = top_height ob
   \<and> bottom_height ((Obstacle_update ^^ n) ob) = bottom_height ob
   \<and> gap_size ((Obstacle_update ^^ n) ob) = gap_size ob"
  by (induction n) (simp_all add: update_keeps_heights)

text \<open>
  C5. For an obstacle built as the game builds it, with a top height drawn from the
  configured range, the top height, the gap and the bottom height add up to the height of
  the screen, at construction (\<open>n = 0\<close>) and after any number \<open>n\<close> of updates. The
  heights are those of the two rectangles, and both lie between 100 and 500.
\<close>

theorem obstacle_heights_fill_screen:
  assumes "in_height_range drawn"
  shows "top_height ((Obstacle_update ^^ n) (Obstacle_init screen_width game_gap_size drawn 100))
           + gap_size ((Obstacle_update ^^ n) (Obstacle_init screen_width game_gap_size drawn 100))
           + bottom_height ((Obstacle_update ^^ n) (Obstacle_init screen_width game_gap_size drawn 100))
         = screen_height
       \<and> top_height ((Obstacle_update ^^ n) (Obstacle_init screen_width game_gap_size drawn 100))
         = drawn
       \<and> gap_size ((Obstacle_update ^^ n) (Obstacle_init screen_width game_gap_size drawn 100))
         = game_gap_size
       \<and> 100 \<le> bottom_height ((Obstacle_update ^^ n) (Obstacle_init screen_width game_gap_size drawn 100))
       \<and> bottom_height ((Obstacle_update ^^ n) (Obstacle_init screen_width game_gap_size drawn 100))
         \<le> 500
       \<and> heights_ok ((Obstacle_update ^^ n) (Obstacle_init screen_width game_gap_size drawn 100))"
proof -
  let ?ob = "Obstacle_init screen_width game_gap_size drawn 100"
  have h: "heights_ok ((Obstacle_update ^^ n) ?ob)"
    by (rule heights_ok_funpow [OF heights_ok_init])
  have k: "top_height ((Obstacle_update ^^ n) ?ob) = drawn"
    "gap_size ((Obstacle_update ^^ n) ?ob) = game_gap_size"
    "bottom_height ((Obstacle_update ^^ n) ?ob) = screen_height - drawn - game_gap_size"
    by (simp_all add: funpow_keeps_heights Obstacle_init_def Let_def)
  from assms have "100 \<le> drawn" "drawn \<le> 500"
    by (simp_all add: in_height_range_def height_range_def)
  with h k show ?thesis
    by (simp add: screen_height_def screen_width_def game_gap_size_def)
qed

theorem obstacle_heights_fill_screen_witness:
  "in_height_range 250
   \<and> top_height ((Obstacle_update ^^ 3) (Obstacle_init screen_width game_gap_size 250 100)) = 250
   \<and> bottom_height ((Obstacle_update ^^ 3) (Obstacle_init screen_width game_gap_size 250 100)) = 350
   \<and> 250 + game_gap_size + 350 = screen_height"
proof -
  have r: "in_height_range 250"
    by (simp add: in_height_range_def height_range_def)
  show ?thesis
    using r obstacle_heights_fill_screen [OF r, of 3]
    by (simp add: screen_height_def screen_width_def game_gap_size_def)
qed

section \<open>Obstacles: motion and removal\<close>

lemma update_x:
  "rect_x (top_rect (Obstacle_update ob)) = rect_x (top_rect ob) - hspeed
   \<and> rect_x (bottom_rect (Obstacle_update ob)) = rect_x (bottom_rect ob) - hspeed
   \<and> rect_w (top_rect (Obstacle_update ob)) = rect_w (top_rect ob)
   \<and> rect_w (bottom_rect (Obstacle_update ob)) = rect_w (bottom_rect ob)"
  by (simp add: Obstacle_update_def Let_def)

lemma update_alive:
  "alive (Obstacle_update ob) = (alive ob \<and> \<not> rect_right (top_rect (Obstacle_update ob)) < 0)"
  by (simp add: Obstacle_update_def Let_def rect_right_def)

lemma funpow_x:
  "rect_x (top_rect ((Obstacle_update ^^ n) ob)) = rect_x (top_rect ob) - hspeed * int n
   \<and> rect_x (bottom_rect ((Obstacle_update ^^ n) ob)) = rect_x (bottom_rect ob) - hspeed * int n
   \<and> rect_w (top_rect ((Obstacle_update ^^ n) ob)) = rect_w (top_rect ob)
   \<and> rect_w (bottom_rect ((Obstacle_update ^^ n) ob)) = rect_w (bottom_rect ob)"
  by (induction n) (simp_all add: update_x algebra_simps)

lemma funpow_alive:
  "alive ob \<Longrightarrow> 0 \<le> rect_right (top_rect ob) \<Longrightarrow>
   alive ((Obstacle_update ^^ n) ob) = (\<not> rect_right (top_rect ob) - hspeed * int n < 0)"
  by (induction n) (auto simp add: update_alive funpow_x update_x rect_right_def hspeed_def)

text \<open>
  C8. An update moves both rectangles of an obstacle 3 to the left, and the obstacle
  stays in its group exactly as long as the right edge of its top rectangle is not
  negative. An obstacle of width 100 built at \<open>x = 1000\<close> has its right edge at
  \<open>1100 - 3 n\<close> after \<open>n\<close> updates: it is still in the group after 366 updates and the
  update number 367 removes it.
\<close>

theorem obstacle_leaves_after_367:
  "rect_x (top_rect (Obstacle_update ob)) = rect_x (top_rect ob) - 3
   \<and> rect_x (bottom_rect (Obstacle_update ob)) = rect_x (bottom_rect ob) - 3
   \<and> alive (Obstacle_update ob) = (alive ob \<and> \<not> rect_right (top_rect (Obstacle_update ob)) < 0)
   \<and> alive ((Obstacle_update ^^ n) (Obstacle_init 1000 gap drawn 100)) = (n < 367)
   \<and> rect_right (top_rect ((Obstacle_update ^^ n) (Obstacle_init 1000 gap drawn 100)))
     = 1100 - 3 * int n"
proof -
  let ?ob = "Obstacle_init 1000 gap drawn 100"
  have a: "alive ?ob" "rect_right (top_rect ?ob) = 1100"
    by (simp_all add: Obstacle_init_def Let_def get_rect_topleft_def rect_right_def)
  have "alive ((Obstacle_update ^^ n) ?ob) = (n < 367)"
    using funpow_alive [OF a(1), of n] a(2) by (simp add: hspeed_def) linarith
  moreover have "rect_right (top_rect ((Obstacle_update ^^ n) ?ob)) = 1100 - 3 * int n"
    using a(2) funpow_x [of n ?ob] by (simp add: rect_right_def hspeed_def)
  ultimately show ?thesis
    using update_x [of ob] update_alive [of ob] by (simp add: hspeed_def)
qed

section \<open>The bird: one update\<close>

text \<open>
  C7. An update of the bird first adds the gravity \<open>0.2\<close> to the velocity and then adds
  the new velocity to the vertical coordinate, which the rectangle stores as an integer
  (\<open>c\<close> is the conversion of the library, whichever it is). When the bottom edge is then
  at or below the height of the screen, the update puts the bottom edge on the height of
  the screen and replaces the velocity by its opposite times \<open>0.75\<close>. The bird is 100
  high, as its constructor builds it.
\<close>

theorem Bird_update_gravity_then_bounce:
  assumes "rect_h (rect b) = 100"
  shows "let v1 = velocity b + 2 / 10;
             y1 = c (of_int (rect_y (rect b)) + v1)
         in Bird_update c b =
              \<lparr>rect = (rect b)\<lparr>rect_y := (if y1 \<le> - 100 then - 100
                                         else if screen_height \<le> y1 + 100 then screen_height - 100
                                         else y1)\<rparr>,
               velocity = (if screen_height \<le> y1 + 100 then - v1 * (75 / 100) else v1)\<rparr>
            \<and> rect_bottom (rect (Bird_update c b)) =
                (if y1 \<le> - 100 then 0
                 else if screen_height \<le> y1 + 100 then screen_height
                 else y1 + 100)"
  using assms
  by (simp add: Bird_update_def Let_def rect_top_def rect_bottom_def set_top_def set_bottom_def
      screen_height_def screen_width_def)

theorem Bird_update_gravity_then_bounce_witness:
  "rect_h (rect \<lparr>rect = \<lparr>rect_x = 450, rect_y = 898, rect_w = 100, rect_h = 100\<rparr>,
                 velocity = 5\<rparr>) = 100
   \<and> Bird_update float_rounded
        \<lparr>rect = \<lparr>rect_x = 450, rect_y = 898, rect_w = 100, rect_h = 100\<rparr>, velocity = 5\<rparr>
       = \<lparr>rect = \<lparr>rect_x = 450, rect_y = 900, rect_w = 100, rect_h = 100\<rparr>,
          velocity = - (39 / 10)\<rparr>
   \<and> Bird_update float_truncated
        \<lparr>rect = \<lparr>rect_x = 450, rect_y = 898, rect_w = 100, rect_h = 100\<rparr>, velocity = 5\<rparr>
       = \<lparr>rect = \<lparr>rect_x = 450, rect_y = 900, rect_w = 100, rect_h = 100\<rparr>,
          velocity = - (39 / 10)\<rparr>
   \<and> rect_bottom (rect (Bird_update float_rounded
         \<lparr>rect = \<lparr>rect_x = 450, rect_y = 898, rect_w = 100, rect_h = 100\<rparr>, velocity = 5\<rparr>))
       = screen_height"
  using
    Bird_update_gravity_then_bounce
      [of "\<lparr>rect = \<lparr>rect_x = 450, rect_y = 898, rect_w = 100, rect_h = 100\<rparr>, velocity = 5\<rparr>"
          float_rounded]
    Bird_update_gravity_then_bounce
      [of "\<lparr>rect = \<lparr>rect_x = 450, rect_y = 898, rect_w = 100, rect_h = 100\<rparr>, velocity = 5\<rparr>"
          float_truncated]
  by (simp add: Let_def float_rounded_def float_truncated_def screen_height_def screen_width_def
      rect_bottom_def)

section \<open>The bird: free flight\<close>

lemma drift_truncated_numeral:
  "drift_truncated (numeral k) =
     drift_truncated (pred_numeral k) + \<lfloor>- 5 + numeral k / (5::rat)\<rfloor>"
  using drift_truncated.simps(2) [of "pred_numeral k"]
  by (simp only: numeral_eq_Suc [symmetric] of_nat_numeral)

lemma drift_rounded_numeral:
  "drift_rounded (numeral k) =
     drift_rounded (pred_numeral k) + \<lfloor>- 5 + numeral k / (5::rat) + 1 / 2\<rfloor>"
  using drift_rounded.simps(2) [of "pred_numeral k"]
  by (simp only: numeral_eq_Suc [symmetric] of_nat_numeral)

lemma drift_truncated_53: "drift_truncated 53 = 0"
  by (simp add: drift_truncated_numeral)

lemma drift_truncated_range: "\<forall>k<54. - 70 \<le> drift_truncated k \<and> drift_truncated k \<le> 0"
  by (simp add: All_less_numeral drift_truncated_numeral)

lemma drift_truncated_negative: "\<forall>k<52. drift_truncated (Suc k) < 0"
  by (simp add: All_less_numeral drift_truncated_numeral)

lemma drift_rounded_49: "drift_rounded 49 = 0"
  by (simp add: drift_rounded_numeral)

lemma drift_rounded_range: "\<forall>k<50. - 60 \<le> drift_rounded k \<and> drift_rounded k \<le> 0"
  by (simp add: All_less_numeral drift_rounded_numeral)

lemma drift_rounded_negative: "\<forall>k<48. drift_rounded (Suc k) < 0"
  by (simp add: All_less_numeral drift_rounded_numeral)

text \<open>One update that touches neither bound, with the step \<open>d\<close> that the conversion gives.\<close>

lemma free_step:
  assumes "rect_h (rect b) = 100"
    and "c (of_int (rect_y (rect b)) + (velocity b + 1 / 5)) = rect_y (rect b) + d"
    and "- 100 < rect_y (rect b) + d" and "rect_y (rect b) + d < 900"
  shows "Bird_update c b =
           \<lparr>rect = (rect b)\<lparr>rect_y := rect_y (rect b) + d\<rparr>, velocity = velocity b + 1 / 5\<rparr>"
  using assms
  by (simp add: Bird_update_def Let_def rect_top_def rect_bottom_def screen_height_def
      screen_width_def)

lemma float_truncated_shift:
  assumes "0 \<le> y + \<lfloor>q\<rfloor>"
  shows "float_truncated (of_int y + q) = y + \<lfloor>q\<rfloor>"
proof -
  have f: "\<lfloor>of_int y + q\<rfloor> = y + \<lfloor>q\<rfloor>"
    by (simp add: add.commute [of "of_int y"])
  with assms have "0 \<le> \<lfloor>of_int y + q\<rfloor>" by simp
  then have "0 \<le> of_int y + q" by (simp only: zero_le_floor)
  with f show ?thesis by (simp add: float_truncated_def)
qed

lemma float_rounded_shift:
  assumes "q - 1 / 2 \<notin> \<int>"
  shows "float_rounded (of_int y + q) = y + \<lfloor>q + 1 / 2\<rfloor>"
proof (cases "0 \<le> of_int y + q")
  case True
  have "of_int y + q + 1 / 2 = (q + 1 / 2) + of_int y"
    by simp
  then have "\<lfloor>of_int y + q + 1 / 2\<rfloor> = \<lfloor>(q + 1 / 2) + of_int y\<rfloor>"
    by (simp only:)
  also have "\<dots> = \<lfloor>q + 1 / 2\<rfloor> + y"
    by (rule floor_add_int [symmetric])
  finally show ?thesis
    using True by (simp add: float_rounded_def)
next
  case False
  have "of_int y + q - 1 / 2 = (q - 1 / 2) + of_int y"
    by simp
  then have "\<lceil>of_int y + q - 1 / 2\<rceil> = \<lceil>(q - 1 / 2) + of_int y\<rceil>"
    by (simp only:)
  also have "\<dots> = \<lceil>q - 1 / 2\<rceil> + y"
    by (rule ceiling_add_of_int)
  also have "\<lceil>q - 1 / 2\<rceil> = \<lfloor>q - 1 / 2\<rfloor> + 1"
  proof -
    have "q - 1 / 2 \<noteq> of_int \<lfloor>q - 1 / 2\<rfloor>"
      using assms Ints_of_int [of "\<lfloor>q - 1 / 2\<rfloor>", where ?'a = rat] by metis
    then show ?thesis by (simp add: ceiling_altdef)
  qed
  also have "\<lfloor>q - 1 / 2\<rfloor> + 1 = \<lfloor>q - 1 / 2 + 1\<rfloor>"
    using floor_add_int [of "q - 1 / 2" 1] by simp
  also have "q - 1 / 2 + 1 = q + 1 / 2"
    by simp
  finally show ?thesis
    using False by (simp add: float_rounded_def)
qed

lemma fifths_never_halfway: "- 5 + of_nat k / (5::rat) - 1 / 2 \<notin> \<int>"
proof
  assume "- 5 + of_nat k / (5::rat) - 1 / 2 \<in> \<int>"
  then obtain z :: int where z: "- 5 + of_nat k / (5::rat) - 1 / 2 = of_int z"
    by (auto simp add: Ints_def)
  then have "(of_int (2 * int k - 55) :: rat) = of_int (10 * z)"
    by (simp add: field_simps)
  then have "2 * int k - 55 = 10 * z"
    by (simp only: of_int_eq_iff)
  then show False by presburger
qed

lemma flight_truncated:
  assumes "rect_h (rect b) = 100" and "70 \<le> rect_y (rect b)" and "rect_y (rect b) \<le> 899"
  shows "k \<le> 53 \<Longrightarrow>
         (Bird_update float_truncated ^^ k) (move_upwards b) =
           \<lparr>rect = (rect b)\<lparr>rect_y := rect_y (rect b) + drift_truncated k\<rparr>,
            velocity = - 5 + of_nat k / 5\<rparr>"
proof (induction k)
  case 0
  show ?case by (simp add: move_upwards_def)
next
  case (Suc k)
  let ?bk = "\<lparr>rect = (rect b)\<lparr>rect_y := rect_y (rect b) + drift_truncated k\<rparr>,
              velocity = - 5 + of_nat k / 5\<rparr>"
  let ?d = "\<lfloor>- 5 + of_nat (Suc k) / (5::rat)\<rfloor>"
  from Suc have eq: "(Bird_update float_truncated ^^ k) (move_upwards b) = ?bk" by simp
  have v: "velocity ?bk + 1 / 5 = - 5 + of_nat (Suc k) / 5" by (simp add: field_simps)
  have d: "rect_y (rect ?bk) + ?d = rect_y (rect b) + drift_truncated (Suc k)"
    by simp
  from Suc.prems have "Suc k < 54" by simp
  then have "- 70 \<le> drift_truncated (Suc k) \<and> drift_truncated (Suc k) \<le> 0"
    by (rule drift_truncated_range [rule_format])
  with assms have r: "0 \<le> rect_y (rect b) + drift_truncated (Suc k)"
    "rect_y (rect b) + drift_truncated (Suc k) < 900"
    by auto
  have c: "float_truncated (of_int (rect_y (rect ?bk)) + (velocity ?bk + 1 / 5))
             = rect_y (rect ?bk) + ?d"
    unfolding v by (rule float_truncated_shift) (use r d in simp)
  have "Bird_update float_truncated ?bk =
          \<lparr>rect = (rect ?bk)\<lparr>rect_y := rect_y (rect ?bk) + ?d\<rparr>,
           velocity = velocity ?bk + 1 / 5\<rparr>"
    by (rule free_step [where d = ?d]) (use assms r d c in simp_all)
  then show ?case
    by (simp only: funpow.simps o_apply eq d v) simp
qed

lemma flight_rounded:
  assumes "rect_h (rect b) = 100" and "- 39 \<le> rect_y (rect b)" and "rect_y (rect b) \<le> 899"
  shows "k \<le> 49 \<Longrightarrow>
         (Bird_update float_rounded ^^ k) (move_upwards b) =
           \<lparr>rect = (rect b)\<lparr>rect_y := rect_y (rect b) + drift_rounded k\<rparr>,
            velocity = - 5 + of_nat k / 5\<rparr>"
proof (induction k)
  case 0
  show ?case by (simp add: move_upwards_def)
next
  case (Suc k)
  let ?bk = "\<lparr>rect = (rect b)\<lparr>rect_y := rect_y (rect b) + drift_rounded k\<rparr>,
              velocity = - 5 + of_nat k / 5\<rparr>"
  let ?d = "\<lfloor>- 5 + of_nat (Suc k) / (5::rat) + 1 / 2\<rfloor>"
  from Suc have eq: "(Bird_update float_rounded ^^ k) (move_upwards b) = ?bk" by simp
  have v: "velocity ?bk + 1 / 5 = - 5 + of_nat (Suc k) / 5" by (simp add: field_simps)
  have d: "rect_y (rect ?bk) + ?d = rect_y (rect b) + drift_rounded (Suc k)"
    by simp
  from Suc.prems have "Suc k < 50" by simp
  then have "- 60 \<le> drift_rounded (Suc k) \<and> drift_rounded (Suc k) \<le> 0"
    by (rule drift_rounded_range [rule_format])
  with assms have r: "- 100 < rect_y (rect b) + drift_rounded (Suc k)"
    "rect_y (rect b) + drift_rounded (Suc k) < 900"
    by auto
  have c: "float_rounded (of_int (rect_y (rect ?bk)) + (velocity ?bk + 1 / 5))
             = rect_y (rect ?bk) + ?d"
    unfolding v by (rule float_rounded_shift [OF fifths_never_halfway])
  have "Bird_update float_rounded ?bk =
          \<lparr>rect = (rect ?bk)\<lparr>rect_y := rect_y (rect ?bk) + ?d\<rparr>,
           velocity = velocity ?bk + 1 / 5\<rparr>"
    by (rule free_step [where d = ?d]) (use assms r d c in simp_all)
  then show ?case
    by (simp only: funpow.simps o_apply eq d v) simp
qed

text \<open>
  C4, as the code has it. The impulse sets the velocity to \<open>- 5\<close>, and the flight touches
  no bound of the screen. Where the library rounds the coordinate to the nearest integer
  (top edge between \<open>- 39\<close> and 899), the bird is back at exactly its initial height after
  exactly 49 updates, and not before. Where the library truncates the coordinate (top edge
  between 70 and 899, so that the coordinate stays non-negative), it is back after exactly
  53 updates, and not before.
\<close>

theorem free_flight_returns_after_49_or_53:
  assumes "rect_h (rect b) = 100"
  shows "(- 39 \<le> rect_y (rect b) \<and> rect_y (rect b) \<le> 899 \<longrightarrow>
            rect_y (rect ((Bird_update float_rounded ^^ 49) (move_upwards b))) = rect_y (rect b)
            \<and> (\<forall>k. 0 < k \<and> k < 49 \<longrightarrow>
                  rect_y (rect ((Bird_update float_rounded ^^ k) (move_upwards b)))
                    < rect_y (rect b)))
       \<and> (70 \<le> rect_y (rect b) \<and> rect_y (rect b) \<le> 899 \<longrightarrow>
            rect_y (rect ((Bird_update float_truncated ^^ 53) (move_upwards b))) = rect_y (rect b)
            \<and> (\<forall>k. 0 < k \<and> k < 53 \<longrightarrow>
                  rect_y (rect ((Bird_update float_truncated ^^ k) (move_upwards b)))
                    < rect_y (rect b)))"
proof (intro conjI impI allI)
  assume "- 39 \<le> rect_y (rect b) \<and> rect_y (rect b) \<le> 899"
  then have y: "- 39 \<le> rect_y (rect b)" "rect_y (rect b) \<le> 899" by simp_all
  show "rect_y (rect ((Bird_update float_rounded ^^ 49) (move_upwards b))) = rect_y (rect b)"
    using flight_rounded [OF assms y, of 49] by (simp add: drift_rounded_49)
  fix k :: nat
  assume "0 < k \<and> k < 49"
  then obtain j where j: "k = Suc j" "j < 48" by (cases k) auto
  from j(2) have "drift_rounded (Suc j) < 0" by (rule drift_rounded_negative [rule_format])
  with j have "drift_rounded k < 0" by (simp only:)
  with flight_rounded [OF assms y, of k] j
  show "rect_y (rect ((Bird_update float_rounded ^^ k) (move_upwards b))) < rect_y (rect b)"
    by simp
next
  assume "70 \<le> rect_y (rect b) \<and> rect_y (rect b) \<le> 899"
  then have y: "70 \<le> rect_y (rect b)" "rect_y (rect b) \<le> 899" by simp_all
  show "rect_y (rect ((Bird_update float_truncated ^^ 53) (move_upwards b))) = rect_y (rect b)"
    using flight_truncated [OF assms y, of 53] by (simp add: drift_truncated_53)
  fix k :: nat
  assume "0 < k \<and> k < 53"
  then obtain j where j: "k = Suc j" "j < 52" by (cases k) auto
  from j(2) have "drift_truncated (Suc j) < 0" by (rule drift_truncated_negative [rule_format])
  with j have "drift_truncated k < 0" by (simp only:)
  with flight_truncated [OF assms y, of k] j
  show "rect_y (rect ((Bird_update float_truncated ^^ k) (move_upwards b))) < rect_y (rect b)"
    by simp
qed

theorem free_flight_returns_after_49_or_53_witness:
  "rect_h (rect (Bird_init 0 0)) = 100
   \<and> - 39 \<le> rect_y (rect (Bird_init 0 0)) \<and> 70 \<le> rect_y (rect (Bird_init 0 0))
   \<and> rect_y (rect (Bird_init 0 0)) \<le> 899
   \<and> rect_y (rect ((Bird_update float_rounded ^^ 49) (move_upwards (Bird_init 0 0)))) = 450
   \<and> (0::nat) < 48 \<and> (48::nat) < 49
   \<and> rect_y (rect ((Bird_update float_rounded ^^ 48) (move_upwards (Bird_init 0 0)))) < 450
   \<and> rect_y (rect ((Bird_update float_truncated ^^ 53) (move_upwards (Bird_init 0 0)))) = 450
   \<and> (0::nat) < 52 \<and> (52::nat) < 53
   \<and> rect_y (rect ((Bird_update float_truncated ^^ 52) (move_upwards (Bird_init 0 0)))) < 450"
proof -
  have h: "rect_h (rect (Bird_init 0 0)) = 100" "rect_y (rect (Bird_init 0 0)) = 450"
    by (simp_all add: Bird_init_def get_rect_center_def screen_height_def screen_width_def)
  from free_flight_returns_after_49_or_53 [OF h(1)] h show ?thesis
    by simp
qed

text \<open>
  The flight of C4 from the initial height 450: after 50 updates the bird is at 455 where
  the library rounds and at 435 where it truncates.
\<close>

theorem free_flight_50_counterexample:
  "rect_y (rect (Bird_init 0 0)) = 450
   \<and> rect_y (rect ((Bird_update float_rounded ^^ 50) (move_upwards (Bird_init 0 0)))) = 455
   \<and> rect_y (rect ((Bird_update float_truncated ^^ 50) (move_upwards (Bird_init 0 0)))) = 435"
  by (simp add: funpow_numeral_step Bird_update_def Bird_init_def move_upwards_def Let_def
      float_rounded_def float_truncated_def get_rect_center_def screen_width_def
      screen_height_def rect_top_def rect_bottom_def set_top_def set_bottom_def)

section \<open>The game loop: events, the loop over the obstacles, one tick\<close>

lemmas game_eval =
  tick_def process_events_def score_obstacle_def bird_collides_def off_screen_def
  reset_game_def render_def game_over_screen_def initial_game_def
  Bird_update_def Bird_init_def move_upwards_def Obstacle_update_def Obstacle_init_def
  colliderect_def float_truncated_def float_rounded_def get_rect_center_def
  get_rect_topleft_def one_obstacle_def
  rect_left_def rect_right_def rect_top_def rect_bottom_def set_top_def set_bottom_def
  screen_width_def screen_height_def hspeed_def game_gap_size_def obstacle_interval_def Let_def

lemma run_replicate_numeral:
  "run c (replicate (numeral k) evs) s =
     (if running s then run c (replicate (pred_numeral k) evs) (fst (tick c evs s)) else s)"
  by (simp add: numeral_eq_Suc)

lemma replicate_numeral_step: "replicate (numeral k) x = x # replicate (pred_numeral k) x"
  by (simp add: numeral_eq_Suc)

lemma run_stopped: "\<not> running s \<Longrightarrow> run c evss s = s"
  by (cases evss) simp_all

lemma run_append: "run c (xs @ ys) s = run c ys (run c xs s)"
  by (induction xs arbitrary: s) (simp_all add: run_stopped)

lemma Bird_update_on_screen:
  "rect_h (rect b) = 100 \<Longrightarrow> on_screen (Bird_update c b) \<and> rect_h (rect (Bird_update c b)) = 100"
  by (simp add: on_screen_def Bird_update_def Let_def rect_top_def rect_bottom_def set_top_def
      set_bottom_def screen_height_def screen_width_def)

lemma Bird_init_rect_h: "rect_h (rect (Bird_init x y)) = 100"
  by (simp add: Bird_init_def get_rect_center_def)

lemma Bird_init_on_screen: "on_screen (Bird_init x y)"
  by (simp add: on_screen_def Bird_init_def get_rect_center_def rect_top_def rect_bottom_def
      screen_width_def screen_height_def)

lemma process_event_rect: "rect (bird (process_event s e)) = rect (bird s)"
  by (cases e) (simp_all add: move_upwards_def)

lemma process_event_score: "score (process_event s e) = score s"
  by (cases e) simp_all

lemma process_event_running: "running (process_event s e) = (running s \<and> e \<noteq> QUIT)"
  by (cases e) simp_all

lemma process_events_rect: "rect (bird (process_events evs s)) = rect (bird s)"
  unfolding process_events_def by (induction evs arbitrary: s) (simp_all add: process_event_rect)

lemma process_events_score: "score (process_events evs s) = score s"
  unfolding process_events_def by (induction evs arbitrary: s) (simp_all add: process_event_score)

lemma process_events_running: "running (process_events evs s) = (running s \<and> QUIT \<notin> set evs)"
  unfolding process_events_def
  by (induction evs arbitrary: s) (auto simp add: process_event_running)

lemma score_obstacle_rects:
  "top_rect (fst (score_obstacle b ob sc)) = top_rect (Obstacle_update ob)
   \<and> bottom_rect (fst (score_obstacle b ob sc)) = bottom_rect (Obstacle_update ob)"
  by (simp add: score_obstacle_def Let_def)

lemma score_obstacle_collides:
  "bird_collides b (fst (score_obstacle b ob sc)) = bird_collides b (Obstacle_update ob)"
  by (simp add: bird_collides_def score_obstacle_rects)

lemma bird_collides_rect: "rect b = rect b' \<Longrightarrow> bird_collides b ob = bird_collides b' ob"
  by (simp add: bird_collides_def)

text \<open>The loop reports a collision exactly when some obstacle, once advanced, hits the bird.\<close>

lemma loop_collision:
  "snd (snd (obstacles_loop b obs sc)) = (\<exists>ob\<in>set obs. bird_collides b (Obstacle_update ob))"
proof (induction obs arbitrary: sc)
  case Nil
  show ?case by simp
next
  case (Cons ob obs)
  obtain ob1 sc1 where s: "score_obstacle b ob sc = (ob1, sc1)"
    by (cases "score_obstacle b ob sc")
  then have c: "bird_collides b ob1 = bird_collides b (Obstacle_update ob)"
    using score_obstacle_collides [of b ob sc] by simp
  show ?case
  proof (cases "bird_collides b ob1")
    case True
    with s c show ?thesis by simp
  next
    case False
    with s c Cons.IH [of sc1] show ?thesis by (auto split: prod.splits)
  qed
qed

text \<open>
  Without a collision the loop adds one to the score for every obstacle of the group that
  passes the bird in this tick and has not scored yet.
\<close>

lemma loop_score:
  "\<not> snd (snd (obstacles_loop b obs sc)) \<Longrightarrow>
   fst (snd (obstacles_loop b obs sc)) =
     sc + int (length (filter (\<lambda>ob. rect_right (top_rect (Obstacle_update ob)) < rect_left (rect b)
                                      \<and> \<not> scored ob) obs))"
proof (induction obs arbitrary: sc)
  case Nil
  show ?case by simp
next
  case (Cons ob obs)
  obtain ob1 sc1 where s: "score_obstacle b ob sc = (ob1, sc1)"
    by (cases "score_obstacle b ob sc")
  obtain obs' sc' c where l: "obstacles_loop b obs sc1 = (obs', sc', c)"
    by (cases "obstacles_loop b obs sc1")
  from Cons.prems s l have nc: "\<not> bird_collides b ob1" "\<not> c"
    by (auto split: if_splits)
  from s have sc1:
    "sc1 = sc + (if rect_right (top_rect (Obstacle_update ob)) < rect_left (rect b) \<and> \<not> scored ob
                 then 1 else 0)"
    by (auto simp add: score_obstacle_def Let_def Obstacle_update_def split: if_splits)
  from Cons.IH [of sc1] l nc
  have "sc' = sc1 + int (length (filter
          (\<lambda>ob. rect_right (top_rect (Obstacle_update ob)) < rect_left (rect b) \<and> \<not> scored ob) obs))"
    by simp
  with s l nc sc1 show ?case by simp
qed

text \<open>One tick, split on the collision test.\<close>

lemma tick_unfold:
  "tick c evs s =
     (if \<exists>ob\<in>set (obstacles (process_events evs s)). bird_collides (bird s) (Obstacle_update ob)
      then (case render c (initial_game\<lparr>running := running s \<and> QUIT \<notin> set evs\<rparr>) of
              (s4, frame) \<Rightarrow>
                (s4, [ClockTick 60] @ game_over_screen @ [SetTimer 0, SetTimer obstacle_interval]
                       @ frame))
      else (let s1 = process_events evs s;
                r = obstacles_loop (bird s1) (obstacles s1) (score s1)
            in case render c (s1\<lparr>obstacles := filter alive (fst r), score := fst (snd r)\<rparr>) of
              (s4, frame) \<Rightarrow> (s4, [ClockTick 60] @ frame)))"
proof -
  let ?s1 = "process_events evs s"
  obtain obs sc c where l: "obstacles_loop (bird ?s1) (obstacles ?s1) (score ?s1) = (obs, sc, c)"
    by (cases "obstacles_loop (bird ?s1) (obstacles ?s1) (score ?s1)")
  have "c = (\<exists>ob\<in>set (obstacles ?s1). bird_collides (bird ?s1) (Obstacle_update ob))"
    using loop_collision [of "bird ?s1" "obstacles ?s1" "score ?s1"] l by simp
  also have "\<dots> = (\<exists>ob\<in>set (obstacles ?s1). bird_collides (bird s) (Obstacle_update ob))"
    using bird_collides_rect [OF process_events_rect [of evs s]] by simp
  finally have c: "c = (\<exists>ob\<in>set (obstacles ?s1). bird_collides (bird s) (Obstacle_update ob))" .
  show ?thesis
  proof (cases c)
    case True
    have "fst (reset_game (?s1\<lparr>obstacles := filter alive obs, score := sc\<rparr>))
            = initial_game\<lparr>running := running s \<and> QUIT \<notin> set evs\<rparr>"
      by (simp add: reset_game_def initial_game_def process_events_running)
    with True c l show ?thesis
      by (simp add: tick_def Let_def reset_game_def split: prod.splits)
  next
    case False
    with c l show ?thesis
      by (simp add: tick_def Let_def split: prod.splits)
  qed
qed

lemma tick_bird:
  "bird (fst (tick c evs s)) =
     Bird_update c
       (if \<exists>ob\<in>set (obstacles (process_events evs s)). bird_collides (bird s) (Obstacle_update ob)
        then Bird_init (screen_width div 2) (screen_height div 2)
        else bird (process_events evs s))"
  by (simp add: tick_unfold render_def Let_def initial_game_def split: prod.splits)

section \<open>The bird stays between the bounds\<close>

lemma tick_bird_ok:
  assumes "rect_h (rect (bird s)) = 100"
  shows "rect_h (rect (bird (fst (tick c evs s)))) = 100 \<and> on_screen (bird (fst (tick c evs s)))"
proof -
  have "rect_h (rect (bird (process_events evs s))) = 100"
    using assms by (simp add: process_events_rect)
  then show ?thesis
    unfolding tick_bird using Bird_update_on_screen Bird_init_rect_h by simp
qed

lemma run_bird_ok:
  "rect_h (rect (bird s)) = 100 \<Longrightarrow> on_screen (bird s) \<Longrightarrow>
   rect_h (rect (bird (run c evss s))) = 100 \<and> on_screen (bird (run c evss s))"
  by (induction evss arbitrary: s) (simp_all add: tick_bird_ok)

lemma presses_bird_ok:
  "rect_h (rect b) = 100 \<Longrightarrow> on_screen b \<Longrightarrow>
   rect_h (rect (foldl (\<lambda>b press. Bird_update c (if press then move_upwards b else b)) b presses))
     = 100
   \<and> on_screen (foldl (\<lambda>b press. Bird_update c (if press then move_upwards b else b)) b presses)"
proof (induction presses arbitrary: b)
  case Nil
  then show ?case by simp
next
  case (Cons p ps)
  have "rect_h (rect (if p then move_upwards b else b)) = 100"
    using Cons.prems by (simp add: move_upwards_def)
  from Bird_update_on_screen [OF this] Cons.IH show ?case by simp
qed

text \<open>
  C2. Whatever the events of each tick are, the bird of the game stays between the
  bounds after every tick, each of which ends with one update of the bird: the coordinate
  of its top edge is at least \<open>- 100\<close> and that of its bottom edge at most the height of
  the screen, 1000.
  The same holds for a fresh bird under any sequence of ticks with or without the impulse.
\<close>

theorem bird_stays_on_screen:
  "on_screen (bird (run c evss initial_game))
   \<and> on_screen (foldl (\<lambda>b press. Bird_update c (if press then move_upwards b else b))
        (Bird_init x y) presses)"
proof -
  have "rect_h (rect (bird initial_game)) = 100" "on_screen (bird initial_game)"
    by (simp_all add: initial_game_def Bird_init_rect_h Bird_init_on_screen)
  from run_bird_ok [OF this] presses_bird_ok [OF Bird_init_rect_h Bird_init_on_screen]
  show ?thesis by simp
qed

section \<open>Four runs of the game\<close>

text \<open>Each of the four runs reaches the state that its definition names.\<close>

lemma reach_late_collision_state:
  "run float_truncated late_collision_events initial_game = late_collision_state"
  by (simp add: late_collision_events_def late_collision_state_def run_replicate_numeral
      game_eval)

lemma reach_collision_state_rounded:
  "run float_rounded collision_events_rounded initial_game = collision_state_rounded"
  by (simp add: collision_events_rounded_def collision_state_rounded_def run_replicate_numeral
      game_eval)

lemma reach_before_overlap_rounded:
  "run float_rounded unseen_overlap_events_rounded initial_game = before_overlap_rounded"
  by (simp add: unseen_overlap_events_rounded_def before_overlap_rounded_def
      replicate_numeral_step game_eval)

lemma reach_before_overlap_truncated:
  "run float_truncated unseen_overlap_events_truncated initial_game = before_overlap_truncated"
  by (simp add: unseen_overlap_events_truncated_def before_overlap_truncated_def
      replicate_numeral_step game_eval)

section \<open>Collision and reset\<close>

text \<open>
  C6, as the code has it. When the rectangle of the bird overlaps the top or the bottom
  rectangle of an obstacle at the collision test of a tick (the obstacle has advanced in
  this tick, the bird has not yet), the tick shows the game over screen, restarts the
  timer with its original interval, and resets the game: the reset gives the initial game,
  with the bird of the constructor, no obstacle and score 0, and leaves \<open>running\<close> as it
  is. The frame of the same tick then advances the new bird once. The loop goes on unless
  the events of the tick held \<open>QUIT\<close>.
\<close>

theorem collision_resets_game:
  assumes "\<exists>ob\<in>set (obstacles (process_events evs s)). bird_collides (bird s) (Obstacle_update ob)"
  shows "fst (tick c evs s) =
           \<lparr>bird = Bird_update c (bird initial_game), obstacles = [], score = 0,
            running = (running s \<and> QUIT \<notin> set evs)\<rparr>
       \<and> snd (tick c evs s) =
           [ClockTick 60, GameOverText, DisplayFlip, TimeWait 2000, SetTimer 0,
            SetTimer obstacle_interval, ScreenFill, DrawBird (Bird_update c (bird initial_game)),
            DrawScore 0, DisplayFlip]
       \<and> fst (reset_game s') = initial_game\<lparr>running := running s'\<rparr>"
  using assms
  by (simp add: tick_unfold render_def Let_def initial_game_def game_over_screen_def
      reset_game_def)

theorem collision_resets_game_witness:
  "(\<exists>ob\<in>set (obstacles (process_events [] collision_state_rounded)).
      bird_collides (bird collision_state_rounded) (Obstacle_update ob))
   \<and> fst (tick float_rounded [] collision_state_rounded) =
       \<lparr>bird = \<lparr>rect = \<lparr>rect_x = 450, rect_y = 445, rect_w = 100, rect_h = 100\<rparr>,
                velocity = - (24 / 5)\<rparr>,
        obstacles = [], score = 0, running = True\<rparr>
   \<and> GameOverText \<in> set (snd (tick float_rounded [] collision_state_rounded))
   \<and> (\<exists>ob\<in>set (obstacles (process_events [] overlap_state)).
      bird_collides (bird overlap_state) (Obstacle_update ob))
   \<and> fst (tick float_truncated [] overlap_state) =
       \<lparr>bird = \<lparr>rect = \<lparr>rect_x = 450, rect_y = 445, rect_w = 100, rect_h = 100\<rparr>,
                velocity = - (24 / 5)\<rparr>,
        obstacles = [], score = 0, running = True\<rparr>"
proof -
  have h: "\<exists>ob\<in>set (obstacles (process_events [] collision_state_rounded)).
             bird_collides (bird collision_state_rounded) (Obstacle_update ob)"
    by (simp add: collision_state_rounded_def game_eval)
  have k: "\<exists>ob\<in>set (obstacles (process_events [] overlap_state)).
             bird_collides (bird overlap_state) (Obstacle_update ob)"
    by (simp add: overlap_state_def game_eval)
  from collision_resets_game [OF h, of float_rounded collision_state_rounded]
    collision_resets_game [OF k, of float_truncated overlap_state] h k
  show ?thesis
    by (simp add: collision_state_rounded_def overlap_state_def game_eval)
qed

text \<open>
  Two ways in which an overlap does not lead to the next iteration after a game over.
  Each run of 215 ticks reaches \<open>before_overlap\<close>. The next tick advances the bird into
  the bottom rectangle of the obstacle and draws the two overlapping (\<open>unseen_overlap\<close>),
  with no game over screen; the tick after it moves the obstacle past the bird, again with
  no game over screen, and counts it. And a tick that polls \<open>QUIT\<close> and finds a collision
  shows the game over screen, resets, and leaves the loop stopped.
\<close>

theorem unseen_overlap_counterexample:
  "run float_rounded unseen_overlap_events_rounded initial_game = before_overlap_rounded
   \<and> fst (tick float_rounded [] before_overlap_rounded) = unseen_overlap_rounded
   \<and> bird_collides (bird unseen_overlap_rounded) (hd (obstacles unseen_overlap_rounded))
   \<and> GameOverText \<notin> set (snd (tick float_rounded [] before_overlap_rounded))
   \<and> fst (tick float_rounded [] unseen_overlap_rounded) = after_overlap_rounded
   \<and> GameOverText \<notin> set (snd (tick float_rounded [] unseen_overlap_rounded))
   \<and> rect_right (top_rect (hd (obstacles after_overlap_rounded)))
       < rect_left (rect (bird after_overlap_rounded))
   \<and> run float_truncated unseen_overlap_events_truncated initial_game = before_overlap_truncated
   \<and> fst (tick float_truncated [] before_overlap_truncated) = unseen_overlap_truncated
   \<and> bird_collides (bird unseen_overlap_truncated) (hd (obstacles unseen_overlap_truncated))
   \<and> GameOverText \<notin> set (snd (tick float_truncated [] before_overlap_truncated))
   \<and> fst (tick float_truncated [] unseen_overlap_truncated) = after_overlap_truncated
   \<and> GameOverText \<notin> set (snd (tick float_truncated [] unseen_overlap_truncated))
   \<and> rect_right (top_rect (hd (obstacles after_overlap_truncated)))
       < rect_left (rect (bird after_overlap_truncated))
   \<and> run float_rounded collision_events_rounded initial_game = collision_state_rounded
   \<and> GameOverText \<in> set (snd (tick float_rounded [QUIT] collision_state_rounded))
   \<and> \<not> running (fst (tick float_rounded [QUIT] collision_state_rounded))
   \<and> run float_truncated (late_collision_events @ [[]]) initial_game = overlap_state
   \<and> GameOverText \<in> set (snd (tick float_truncated [QUIT] overlap_state))
   \<and> \<not> running (fst (tick float_truncated [QUIT] overlap_state))"
proof -
  have r: "fst (tick float_rounded [] before_overlap_rounded) = unseen_overlap_rounded"
    "bird_collides (bird unseen_overlap_rounded) (hd (obstacles unseen_overlap_rounded))"
    "GameOverText \<notin> set (snd (tick float_rounded [] before_overlap_rounded))"
    "fst (tick float_rounded [] unseen_overlap_rounded) = after_overlap_rounded"
    "GameOverText \<notin> set (snd (tick float_rounded [] unseen_overlap_rounded))"
    "rect_right (top_rect (hd (obstacles after_overlap_rounded)))
       < rect_left (rect (bird after_overlap_rounded))"
    by (simp_all add: before_overlap_rounded_def unseen_overlap_rounded_def
        after_overlap_rounded_def game_eval)
  have t: "fst (tick float_truncated [] before_overlap_truncated) = unseen_overlap_truncated"
    "bird_collides (bird unseen_overlap_truncated) (hd (obstacles unseen_overlap_truncated))"
    "GameOverText \<notin> set (snd (tick float_truncated [] before_overlap_truncated))"
    "fst (tick float_truncated [] unseen_overlap_truncated) = after_overlap_truncated"
    "GameOverText \<notin> set (snd (tick float_truncated [] unseen_overlap_truncated))"
    "rect_right (top_rect (hd (obstacles after_overlap_truncated)))
       < rect_left (rect (bird after_overlap_truncated))"
    by (simp_all add: before_overlap_truncated_def unseen_overlap_truncated_def
        after_overlap_truncated_def game_eval)
  have q: "GameOverText \<in> set (snd (tick float_rounded [QUIT] collision_state_rounded))"
    "\<not> running (fst (tick float_rounded [QUIT] collision_state_rounded))"
    "GameOverText \<in> set (snd (tick float_truncated [QUIT] overlap_state))"
    "\<not> running (fst (tick float_truncated [QUIT] overlap_state))"
    by (simp_all add: collision_state_rounded_def overlap_state_def game_eval)
  have o: "run float_truncated (late_collision_events @ [[]]) initial_game = overlap_state"
    by (simp add: run_append reach_late_collision_state)
       (simp add: late_collision_state_def overlap_state_def game_eval)
  from r t q o reach_before_overlap_rounded reach_before_overlap_truncated
    reach_collision_state_rounded
  show ?thesis by simp
qed

section \<open>The order of a tick\<close>

text \<open>
  C3, as the code has it. A tick polls the events first; then it advances each obstacle
  and tests it at once for the score and for a collision, against the rectangle that the
  bird has at the start of the tick; then, after a collision, it resets the game; then it
  draws the frame, and it advances the bird while it draws, after the obstacles and
  before the bird. So the game over screen appears exactly when an obstacle of the group
  (those the events of this tick have added included), once advanced, overlaps the bird
  as the tick before left it; the bird that the tick leaves and draws is the update of
  the bird after the events, or of a new bird after a collision.
\<close>

theorem tick_order:
  "(GameOverText \<in> set (snd (tick c evs s))) =
     (\<exists>ob\<in>set (obstacles (process_events evs s)). bird_collides (bird s) (Obstacle_update ob))
   \<and> bird (fst (tick c evs s)) =
       Bird_update c
         (if \<exists>ob\<in>set (obstacles (process_events evs s)). bird_collides (bird s) (Obstacle_update ob)
          then Bird_init (screen_width div 2) (screen_height div 2)
          else bird (process_events evs s))
   \<and> snd (tick c evs s) =
       [ClockTick 60]
       @ (if \<exists>ob\<in>set (obstacles (process_events evs s)). bird_collides (bird s) (Obstacle_update ob)
          then game_over_screen @ [SetTimer 0, SetTimer obstacle_interval] else [])
       @ [ScreenFill] @ map DrawObstacle (obstacles (fst (tick c evs s)))
       @ [DrawBird (bird (fst (tick c evs s))), DrawScore (score (fst (tick c evs s))),
          DisplayFlip]"
  by (auto simp add: tick_unfold render_def Let_def initial_game_def game_over_screen_def
      split: prod.splits)

theorem tick_order_witness:
  "\<not> (\<exists>ob\<in>set (obstacles (process_events [KEYDOWN K_SPACE] late_collision_state)).
        bird_collides (bird late_collision_state) (Obstacle_update ob))
   \<and> GameOverText \<notin> set (snd (tick float_truncated [KEYDOWN K_SPACE] late_collision_state))
   \<and> bird (fst (tick float_truncated [KEYDOWN K_SPACE] late_collision_state)) =
       \<lparr>rect = \<lparr>rect_x = 450, rect_y = 595, rect_w = 100, rect_h = 100\<rparr>, velocity = - (24 / 5)\<rparr>
   \<and> bird (fst (tick float_rounded [KEYDOWN K_SPACE] late_collision_state)) =
       \<lparr>rect = \<lparr>rect_x = 450, rect_y = 595, rect_w = 100, rect_h = 100\<rparr>, velocity = - (24 / 5)\<rparr>
   \<and> bird_collides (bird overlap_state) (Obstacle_update (hd (obstacles overlap_state)))
   \<and> GameOverText \<in> set (snd (tick float_truncated [] overlap_state))
   \<and> GameOverText \<in> set (snd (tick float_rounded [] overlap_state))"
  using tick_order [of float_truncated "[KEYDOWN K_SPACE]" late_collision_state]
    tick_order [of float_rounded "[KEYDOWN K_SPACE]" late_collision_state]
    tick_order [of float_truncated "[]" overlap_state]
    tick_order [of float_rounded "[]" overlap_state]
  by (simp add: late_collision_state_def overlap_state_def game_eval)

text \<open>
  Where the library truncates, the run \<open>late_collision_events\<close> reaches
  \<open>late_collision_state\<close>. In the next tick the bird, once advanced, overlaps the obstacle,
  once advanced; the tick shows no game over screen and leaves the two overlapping. The
  same tick with the rounding library does the same. Where the library rounds, the run
  \<open>unseen_overlap_events_rounded\<close> reaches \<open>before_overlap_rounded\<close>, and the next tick
  does the same there.
\<close>

theorem late_collision_counterexample:
  "run float_truncated late_collision_events initial_game = late_collision_state
   \<and> bird_collides (Bird_update float_truncated (bird late_collision_state))
       (Obstacle_update (hd (obstacles late_collision_state)))
   \<and> GameOverText \<notin> set (snd (tick float_truncated [] late_collision_state))
   \<and> fst (tick float_truncated [] late_collision_state) = overlap_state
   \<and> bird_collides (bird overlap_state) (hd (obstacles overlap_state))
   \<and> bird_collides (Bird_update float_rounded (bird late_collision_state))
       (Obstacle_update (hd (obstacles late_collision_state)))
   \<and> GameOverText \<notin> set (snd (tick float_rounded [] late_collision_state))
   \<and> fst (tick float_rounded [] late_collision_state) = overlap_state
   \<and> run float_rounded unseen_overlap_events_rounded initial_game = before_overlap_rounded
   \<and> bird_collides (Bird_update float_rounded (bird before_overlap_rounded))
       (Obstacle_update (hd (obstacles before_overlap_rounded)))
   \<and> GameOverText \<notin> set (snd (tick float_rounded [] before_overlap_rounded))
   \<and> bird_collides (bird (fst (tick float_rounded [] before_overlap_rounded)))
       (hd (obstacles (fst (tick float_rounded [] before_overlap_rounded))))"
proof -
  have a: "bird_collides (Bird_update float_truncated (bird late_collision_state))
       (Obstacle_update (hd (obstacles late_collision_state)))"
    "GameOverText \<notin> set (snd (tick float_truncated [] late_collision_state))"
    "fst (tick float_truncated [] late_collision_state) = overlap_state"
    "bird_collides (bird overlap_state) (hd (obstacles overlap_state))"
    "bird_collides (Bird_update float_rounded (bird late_collision_state))
       (Obstacle_update (hd (obstacles late_collision_state)))"
    "GameOverText \<notin> set (snd (tick float_rounded [] late_collision_state))"
    "fst (tick float_rounded [] late_collision_state) = overlap_state"
    by (simp_all add: late_collision_state_def overlap_state_def game_eval)
  have b: "bird_collides (Bird_update float_rounded (bird before_overlap_rounded))
       (Obstacle_update (hd (obstacles before_overlap_rounded)))"
    "GameOverText \<notin> set (snd (tick float_rounded [] before_overlap_rounded))"
    "bird_collides (bird (fst (tick float_rounded [] before_overlap_rounded)))
       (hd (obstacles (fst (tick float_rounded [] before_overlap_rounded))))"
    by (simp_all add: before_overlap_rounded_def game_eval)
  from a b reach_late_collision_state reach_before_overlap_rounded
  show ?thesis by simp
qed

section \<open>An invariant of the game\<close>

text \<open>Without a collision the loop applies its body to every obstacle of the group.\<close>

lemma score_obstacle_fst: "fst (score_obstacle b ob sc) = fst (score_obstacle b ob 0)"
  by (simp add: score_obstacle_def Let_def)

lemma loop_obstacles:
  "\<not> snd (snd (obstacles_loop b obs sc)) \<Longrightarrow>
   fst (obstacles_loop b obs sc) = map (loop_body b) obs"
proof (induction obs arbitrary: sc)
  case Nil
  show ?case by simp
next
  case (Cons ob obs)
  obtain ob1 sc1 where s: "score_obstacle b ob sc = (ob1, sc1)"
    by (cases "score_obstacle b ob sc")
  obtain obs' sc' c where l: "obstacles_loop b obs sc1 = (obs', sc', c)"
    by (cases "obstacles_loop b obs sc1")
  from Cons.prems s l have nc: "\<not> bird_collides b ob1" "\<not> c"
    by (auto split: if_splits)
  from s have o: "ob1 = fst (score_obstacle b ob 0)"
    using score_obstacle_fst [of b ob sc] by simp
  from Cons.IH [of sc1] l nc have "obs' = map (loop_body b) obs" by simp
  with s l nc o show ?case by (simp add: loop_body_def Let_def)
qed

lemma loop_body_ok:
  assumes "obstacle_ok b ob" and "alive (loop_body b ob)"
  shows "obstacle_ok b (loop_body b ob)"
  using assms
  by (auto simp add: obstacle_ok_def loop_body_def score_obstacle_def Obstacle_update_def Let_def
      synced_def heights_ok_def off_screen_def rect_right_def rect_left_def rect_top_def
      rect_bottom_def hspeed_def split: if_splits)

lemma obstacle_ok_rect: "rect b = rect b' \<Longrightarrow> obstacle_ok b ob = obstacle_ok b' ob"
  by (simp add: obstacle_ok_def)

lemma Obstacle_init_ok:
  "rect_left (rect b) = 450 \<Longrightarrow>
   obstacle_ok b (Obstacle_init screen_width game_gap_size drawn 100)"
  by (simp add: obstacle_ok_def synced_init heights_ok_init)
     (simp add: Obstacle_init_def Let_def get_rect_topleft_def rect_right_def screen_width_def)

lemma process_event_ok:
  assumes "game_ok s"
  shows "game_ok (process_event s e)"
proof -
  have r: "rect (bird (process_event s e)) = rect (bird s)"
    by (rule process_event_rect)
  have l: "rect_left (rect (bird (process_event s e))) = 450"
    using assms by (simp add: r game_ok_def)
  have "list_all (obstacle_ok (bird s)) (obstacles (process_event s e))"
    using assms by (cases e) (simp_all add: game_ok_def Obstacle_init_ok)
  then have "list_all (obstacle_ok (bird (process_event s e))) (obstacles (process_event s e))"
    using obstacle_ok_rect [OF r] by (simp add: list_all_iff)
  with l show ?thesis by (simp add: game_ok_def)
qed

lemma process_events_ok: "game_ok s \<Longrightarrow> game_ok (process_events evs s)"
  unfolding process_events_def by (induction evs arbitrary: s) (simp_all add: process_event_ok)

lemma Bird_update_x: "rect_left (rect (Bird_update c b)) = rect_left (rect b)"
  by (simp add: Bird_update_def Let_def rect_left_def set_top_def set_bottom_def)

lemma obstacle_ok_left:
  "rect_left (rect b) = rect_left (rect b') \<Longrightarrow> obstacle_ok b ob = obstacle_ok b' ob"
  by (simp add: obstacle_ok_def)

lemma tick_ok:
  assumes "game_ok s"
  shows "game_ok (fst (tick c evs s))"
proof -
  let ?s1 = "process_events evs s"
  have s1: "game_ok ?s1" by (rule process_events_ok [OF assms])
  show ?thesis
  proof (cases "\<exists>ob\<in>set (obstacles ?s1). bird_collides (bird s) (Obstacle_update ob)")
    case True
    then show ?thesis
      by (simp add: tick_unfold render_def Let_def initial_game_def game_ok_def Bird_update_x)
         (simp add: Bird_init_def get_rect_center_def rect_left_def screen_width_def)
  next
    case False
    then have nc: "\<not> snd (snd (obstacles_loop (bird ?s1) (obstacles ?s1) (score ?s1)))"
      using loop_collision [of "bird ?s1" "obstacles ?s1" "score ?s1"]
        bird_collides_rect [OF process_events_rect [of evs s]] by simp
    have ob: "obstacles (fst (tick c evs s))
                = filter alive (map (loop_body (bird ?s1)) (obstacles ?s1))"
      using False loop_obstacles [OF nc] by (simp add: tick_unfold render_def Let_def)
    have b: "bird (fst (tick c evs s)) = Bird_update c (bird ?s1)"
      using False by (simp add: tick_bird)
    have "list_all (obstacle_ok (bird ?s1))
            (filter alive (map (loop_body (bird ?s1)) (obstacles ?s1)))"
      using s1 by (auto simp add: game_ok_def list_all_iff loop_body_ok)
    then have "list_all (obstacle_ok (Bird_update c (bird ?s1)))
                 (filter alive (map (loop_body (bird ?s1)) (obstacles ?s1)))"
      using obstacle_ok_left [OF Bird_update_x [of c "bird ?s1"]] by (simp add: list_all_iff)
    with s1 show ?thesis
      unfolding game_ok_def ob b by (simp add: Bird_update_x)
  qed
qed

lemma initial_game_ok: "game_ok initial_game"
  by (simp add: game_ok_def initial_game_def Bird_init_def get_rect_center_def rect_left_def
      screen_width_def)

text \<open>
  Every state of every run of the game satisfies the invariant: an obstacle of the group
  has scored exactly when its right edge is strictly left of the left edge of the bird.
\<close>


lemma run_ok: "game_ok s \<Longrightarrow> game_ok (run c evss s)"
  by (induction evss arbitrary: s) (simp_all add: tick_ok)

section \<open>Scoring\<close>

lemma loop_body_right:
  assumes "obstacle_ok b ob"
  shows "alive (loop_body b ob) = (hspeed \<le> rect_right (top_rect ob))
       \<and> rect_right (top_rect (loop_body b ob)) = rect_right (top_rect ob) - hspeed"
  using assms
  by (auto simp add: obstacle_ok_def loop_body_def score_obstacle_def Obstacle_update_def
      Let_def synced_def off_screen_def rect_right_def hspeed_def)

lemma loop_obstacles_right:
  "list_all (obstacle_ok b) obs \<Longrightarrow>
   map (\<lambda>ob. rect_right (top_rect ob)) (filter alive (map (loop_body b) obs)) =
   map (\<lambda>ob. rect_right (top_rect ob) - hspeed)
     (filter (\<lambda>ob. hspeed \<le> rect_right (top_rect ob)) obs)"
  by (induction obs) (simp_all add: loop_body_right)

lemma passes_now_unscored:
  assumes "obstacle_ok b ob"
  shows "(rect_right (top_rect (Obstacle_update ob)) < rect_left (rect b) \<and> \<not> scored ob)
           = passes_now b ob"
  using assms by (auto simp add: obstacle_ok_def passes_now_def)

text \<open>
  C1. Take any state that a run of the game reaches, and one more tick. Every obstacle of
  the group has its flag set exactly when its right edge is strictly left of the left
  edge of the bird. Without a collision the tick adds to the score exactly the number of
  obstacles whose right edge comes strictly left of the left edge of the bird in this
  tick and was not before it: one for each such obstacle. The tick moves the right edge
  of every obstacle that stays in the group 3 to the left and leaves the left edge of the
  bird where it is, so an obstacle that has passed does not pass again. After a collision
  the score of the tick is 0 and the group is empty.
\<close>

theorem score_once_per_obstacle:
  "let s = run c evss initial_game;
       s1 = process_events evs s;
       collision = (\<exists>ob\<in>set (obstacles s1). bird_collides (bird s) (Obstacle_update ob))
   in score (fst (tick c evs s)) =
        (if collision then 0
         else score s + int (length (filter (passes_now (bird s)) (obstacles s1))))
      \<and> list_all (\<lambda>ob. scored ob = (rect_right (top_rect ob) < rect_left (rect (bird s))))
          (obstacles s)
      \<and> map (\<lambda>ob. rect_right (top_rect ob)) (obstacles (fst (tick c evs s))) =
        (if collision then []
         else map (\<lambda>ob. rect_right (top_rect ob) - hspeed)
                (filter (\<lambda>ob. hspeed \<le> rect_right (top_rect ob)) (obstacles s1)))
      \<and> rect_left (rect (bird (fst (tick c evs s)))) = rect_left (rect (bird s))"
proof -
  define s where "s = run c evss initial_game"
  define s1 where "s1 = process_events evs s"
  define collision where
    "collision = (\<exists>ob\<in>set (obstacles s1). bird_collides (bird s) (Obstacle_update ob))"
  have ok: "game_ok s"
    unfolding s_def by (rule run_ok [OF initial_game_ok])
  have ok1: "game_ok s1"
    unfolding s1_def by (rule process_events_ok [OF ok])
  have rb: "rect (bird s1) = rect (bird s)"
    unfolding s1_def by (rule process_events_rect)
  have all1: "list_all (obstacle_ok (bird s)) (obstacles s1)"
    using ok1 obstacle_ok_rect [OF rb] by (simp add: game_ok_def list_all_iff)
  have flags: "list_all (\<lambda>ob. scored ob = (rect_right (top_rect ob) < rect_left (rect (bird s))))
                 (obstacles s)"
    using ok by (simp add: game_ok_def list_all_iff obstacle_ok_def)
  have left: "rect_left (rect (bird (fst (tick c evs s)))) = rect_left (rect (bird s))"
    using ok
    by (simp add: tick_bird Bird_update_x game_ok_def s1_def [symmetric] rb)
       (simp add: Bird_init_def get_rect_center_def rect_left_def screen_width_def)
  have sc: "score (fst (tick c evs s)) =
              (if collision then 0
               else score s + int (length (filter (passes_now (bird s)) (obstacles s1))))"
  proof (cases collision)
    case True
    then show ?thesis
      unfolding collision_def s1_def
      by (simp add: tick_unfold render_def Let_def initial_game_def)
  next
    case False
    then have nc: "\<not> snd (snd (obstacles_loop (bird s1) (obstacles s1) (score s1)))"
      unfolding collision_def
      using loop_collision [of "bird s1" "obstacles s1" "score s1"] bird_collides_rect [OF rb]
      by simp
    have f: "filter (\<lambda>ob. rect_right (top_rect (Obstacle_update ob)) < rect_left (rect (bird s1))
                           \<and> \<not> scored ob) (obstacles s1)
             = filter (passes_now (bird s)) (obstacles s1)"
      using all1 passes_now_unscored [of "bird s"]
      by (intro filter_cong) (auto simp add: list_all_iff rb)
    have "score (fst (tick c evs s)) = fst (snd (obstacles_loop (bird s1) (obstacles s1) (score s1)))"
      using False unfolding collision_def s1_def
      by (simp add: tick_unfold render_def Let_def)
    also have "\<dots> = score s1 + int (length (filter (passes_now (bird s)) (obstacles s1)))"
      using loop_score [OF nc] by (simp only: f)
    also have "score s1 = score s"
      unfolding s1_def by (rule process_events_score)
    finally show ?thesis using False by simp
  qed
  have obs: "map (\<lambda>ob. rect_right (top_rect ob)) (obstacles (fst (tick c evs s))) =
               (if collision then []
                else map (\<lambda>ob. rect_right (top_rect ob) - hspeed)
                       (filter (\<lambda>ob. hspeed \<le> rect_right (top_rect ob)) (obstacles s1)))"
  proof (cases collision)
    case True
    then show ?thesis
      unfolding collision_def s1_def
      by (simp add: tick_unfold render_def Let_def initial_game_def)
  next
    case False
    then have nc: "\<not> snd (snd (obstacles_loop (bird s1) (obstacles s1) (score s1)))"
      unfolding collision_def
      using loop_collision [of "bird s1" "obstacles s1" "score s1"] bird_collides_rect [OF rb]
      by simp
    have "obstacles (fst (tick c evs s)) = filter alive (map (loop_body (bird s1)) (obstacles s1))"
      using False loop_obstacles [OF nc] unfolding collision_def s1_def
      by (simp add: tick_unfold render_def Let_def)
    moreover have "list_all (obstacle_ok (bird s1)) (obstacles s1)"
      using ok1 by (simp add: game_ok_def)
    ultimately show ?thesis
      using False by (simp add: loop_obstacles_right)
  qed
  from sc flags obs left show ?thesis
    unfolding Let_def s_def [symmetric] s1_def [symmetric] collision_def [symmetric]
    by simp
qed

theorem score_once_per_obstacle_witness:
  "run float_rounded (unseen_overlap_events_rounded @ [[]]) initial_game = unseen_overlap_rounded
   \<and> score unseen_overlap_rounded = 0
   \<and> filter (passes_now (bird unseen_overlap_rounded)) (obstacles unseen_overlap_rounded)
       = obstacles unseen_overlap_rounded
   \<and> score (fst (tick float_rounded [] unseen_overlap_rounded)) = 1
   \<and> run float_rounded (unseen_overlap_events_rounded @ [[], []]) initial_game
       = after_overlap_rounded
   \<and> filter (passes_now (bird after_overlap_rounded)) (obstacles after_overlap_rounded) = []
   \<and> score (fst (tick float_rounded [] after_overlap_rounded)) = 1"
proof -
  have r1: "run float_rounded (unseen_overlap_events_rounded @ [[]]) initial_game
              = unseen_overlap_rounded"
    by (simp add: run_append reach_before_overlap_rounded)
       (simp add: before_overlap_rounded_def unseen_overlap_rounded_def game_eval)
  have r2: "run float_rounded (unseen_overlap_events_rounded @ [[], []]) initial_game
              = after_overlap_rounded"
    by (simp add: run_append reach_before_overlap_rounded)
       (simp add: before_overlap_rounded_def after_overlap_rounded_def game_eval)
  have e: "score unseen_overlap_rounded = 0"
    "filter (passes_now (bird unseen_overlap_rounded)) (obstacles unseen_overlap_rounded)
       = obstacles unseen_overlap_rounded"
    "filter (passes_now (bird after_overlap_rounded)) (obstacles after_overlap_rounded) = []"
    "score after_overlap_rounded = 1"
    "\<not> (\<exists>ob\<in>set (obstacles (process_events [] unseen_overlap_rounded)).
          bird_collides (bird unseen_overlap_rounded) (Obstacle_update ob))"
    "\<not> (\<exists>ob\<in>set (obstacles (process_events [] after_overlap_rounded)).
          bird_collides (bird after_overlap_rounded) (Obstacle_update ob))"
    "length (obstacles unseen_overlap_rounded) = 1"
    "process_events [] unseen_overlap_rounded = unseen_overlap_rounded"
    "process_events [] after_overlap_rounded = after_overlap_rounded"
    by (simp_all add: unseen_overlap_rounded_def after_overlap_rounded_def passes_now_def
        game_eval)
  from score_once_per_obstacle [of float_rounded "unseen_overlap_events_rounded @ [[]]" "[]"]
    score_once_per_obstacle [of float_rounded "unseen_overlap_events_rounded @ [[], []]" "[]"]
  show ?thesis
    unfolding Let_def r1 r2 using e r1 r2 by simp
qed

end
